theory Spec2Isabelle
  imports Main "HOL-Library.Word"
begin

section \<open>Time, errors and the clock\<close>

text \<open>
  The package \<^verbatim>\<open>dampener\<close> throttles HTTP requests: a \<^verbatim>\<open>Storage\<close> keeps a log of
  timestamps per key, a \<^verbatim>\<open>Throttle\<close> decides from the number of recent timestamps under
  its prefix, and a \<^verbatim>\<open>Throttler\<close> runs a list of throttles in front of a handler.

  A \<^verbatim>\<open>time.Time\<close> is an instant on one time line, here an integer number of
  nanoseconds; \<^verbatim>\<open>Before\<close> and \<^verbatim>\<open>After\<close> are the strict orders. A
  \<^verbatim>\<open>time.Duration\<close> is Go's \<^verbatim>\<open>int64\<close> number of nanoseconds, so its arithmetic wraps
  around; \<^verbatim>\<open>Add\<close> moves an instant by the signed value of a duration.
\<close>

type_synonym Time = int

type_synonym Duration = "64 word"

definition Before :: "Time \<Rightarrow> Time \<Rightarrow> bool" where
  "Before t u = (t < u)"

definition After :: "Time \<Rightarrow> Time \<Rightarrow> bool" where
  "After t u = (u < t)"

definition Add :: "Time \<Rightarrow> Duration \<Rightarrow> Time" where
  "Add t d = t + sint d"

text \<open>
  A Go \<^verbatim>\<open>error\<close> is either \<^verbatim>\<open>nil\<close> (\<open>None\<close>) or a value carrying a message. A
  run-time panic is an outcome of its own.
\<close>

datatype error = Error string

datatype 'a outcome = Returned 'a | Panic string

text \<open>
  \<^verbatim>\<open>time.Now()\<close> reads the wall clock, and the program reads it more than once during
  one call. The clock is the sequence of values that successive reads return, together
  with the number of reads made so far.
\<close>

record clock =
  readings :: "nat \<Rightarrow> Time"
  taken :: nat

definition time_Now :: "clock \<Rightarrow> Time \<times> clock" where
  "time_Now c = (readings c (taken c), c\<lparr>taken := Suc (taken c)\<rparr>)"

text \<open>
  The world a throttle acts on: the state of the storage backend and the clock.
\<close>

record 'st world =
  backend :: 'st
  clk :: clock

section \<open>The Storage interface and MemoryStorage\<close>

text \<open>
  \<^verbatim>\<open>Storage\<close> is an interface of three methods; an implementation is a record of the
  three, each acting on the world. The count returned by \<^verbatim>\<open>EventsInDuration\<close> is an
  \<^verbatim>\<open>int64\<close>; \<^verbatim>\<open>MemoryStorage\<close> increments it once per element of a slice, whose length
  is below \<open>2 ^ 63\<close>, so the counter never wraps and is an integer here.
\<close>

record 'st Storage =
  EventsInDuration :: "string \<Rightarrow> Duration \<Rightarrow> 'st world \<Rightarrow> (int \<times> error option) \<times> 'st world"
  AppendEvent :: "string \<Rightarrow> Time \<Rightarrow> 'st world \<Rightarrow> error option \<times> 'st world"
  Clean :: "string \<Rightarrow> Time \<Rightarrow> 'st world \<Rightarrow> error option outcome \<times> 'st world"

text \<open>
  \<^verbatim>\<open>MemoryStorage.s\<close> is a \<^verbatim>\<open>map[string][]time.Time\<close>. Reading a key that is not in a
  Go map gives the nil slice and leaves the map as it is. The mutex is not modelled:
  every method runs from its \<^verbatim>\<open>Lock\<close> to its \<^verbatim>\<open>Unlock\<close> in one step.
\<close>

type_synonym memory = "string \<rightharpoonup> Time list"

definition NewMemoryStorage :: memory where
  "NewMemoryStorage = Map.empty"

definition index_map :: "memory \<Rightarrow> string \<Rightarrow> Time list" where
  "index_map s k = (case s k of None \<Rightarrow> [] | Some l \<Rightarrow> l)"

definition MemoryStorage_AppendEvent ::
  "string \<Rightarrow> Time \<Rightarrow> memory world \<Rightarrow> error option \<times> memory world" where
  "MemoryStorage_AppendEvent k t w =
     (let s1 = (if backend w k = None then (backend w)(k \<mapsto> []) else backend w);
          s2 = s1(k \<mapsto> index_map s1 k @ [t])
      in (None, w\<lparr>backend := s2\<rparr>))"

text \<open>
  The loop of \<^verbatim>\<open>EventsInDuration\<close>: \<^verbatim>\<open>time.Now()\<close> is inside the loop body, so every
  element of the log is compared with a cutoff computed from a fresh reading of the
  clock. \<^verbatim>\<open>-1 * d\<close> is a product of two \<^verbatim>\<open>int64\<close> values.
\<close>

fun EventsInDuration_loop :: "Duration \<Rightarrow> Time list \<Rightarrow> int \<Rightarrow> clock \<Rightarrow> int \<times> clock" where
  "EventsInDuration_loop d [] counter c = (counter, c)"
| "EventsInDuration_loop d (v # vs) counter c =
     (case time_Now c of (now, c') \<Rightarrow>
        EventsInDuration_loop d vs
          (if After v (Add now (- 1 * d)) then counter + 1 else counter) c')"

definition MemoryStorage_EventsInDuration ::
  "string \<Rightarrow> Duration \<Rightarrow> memory world \<Rightarrow> (int \<times> error option) \<times> memory world" where
  "MemoryStorage_EventsInDuration k d w =
     (case EventsInDuration_loop d (index_map (backend w) k) 0 (clk w) of
        (counter, c') \<Rightarrow> ((counter, None), w\<lparr>clk := c'\<rparr>))"

text \<open>
  A slice expression \<^verbatim>\<open>s[lo:]\<close> panics unless \<open>0 \<le> lo \<le> len(s)\<close>.
\<close>

definition slice_from :: "'a list \<Rightarrow> int \<Rightarrow> 'a list outcome" where
  "slice_from s lo =
     (if lo < 0 \<or> int (length s) < lo then Panic ''slice bounds out of range''
      else Returned (drop (nat lo) s))"

text \<open>
  The loop of \<^verbatim>\<open>Clean\<close> over the log \<open>whole\<close>, at index \<open>i\<close> with the elements \<open>vs\<close> still
  to visit. It skips the elements before \<open>to\<close>; at the first other element it assigns
  \<^verbatim>\<open>s.s[k][i-1:]\<close> and returns. The result is the slice assigned, or \<open>None\<close> when the loop
  runs to its end and nothing is assigned.
\<close>

fun Clean_loop :: "Time \<Rightarrow> Time list \<Rightarrow> int \<Rightarrow> Time list \<Rightarrow> Time list option outcome" where
  "Clean_loop to whole i [] = Returned None"
| "Clean_loop to whole i (v # vs) =
     (if Before v to then Clean_loop to whole (i + 1) vs
      else (case slice_from whole (i - 1) of
              Panic m \<Rightarrow> Panic m
            | Returned l \<Rightarrow> Returned (Some l)))"

definition MemoryStorage_Clean ::
  "string \<Rightarrow> Time \<Rightarrow> memory world \<Rightarrow> error option outcome \<times> memory world" where
  "MemoryStorage_Clean k to w =
     (case Clean_loop to (index_map (backend w) k) 0 (index_map (backend w) k) of
        Panic m \<Rightarrow> (Panic m, w)
      | Returned None \<Rightarrow> (Returned None, w)
      | Returned (Some l) \<Rightarrow> (Returned None, w\<lparr>backend := (backend w)(k \<mapsto> l)\<rparr>))"

definition MemoryStorage :: "memory Storage" where
  "MemoryStorage =
     \<lparr>EventsInDuration = MemoryStorage_EventsInDuration,
      AppendEvent = MemoryStorage_AppendEvent,
      Clean = MemoryStorage_Clean\<rparr>"

section \<open>Throttles\<close>

text \<open>
  \<^verbatim>\<open>ThrottleOptions\<close> is an interface of five getters; \<^verbatim>\<open>dampenerThrottleOptions\<close>
  returns its fields (\<^verbatim>\<open>prefix\<close>, \<^verbatim>\<open>max\<close>, \<^verbatim>\<open>duration\<close>, \<^verbatim>\<open>f\<close>, \<^verbatim>\<open>storage\<close>) from
  them. \<open>'r\<close> is the type of requests. The maximal count is a Go \<^verbatim>\<open>int\<close>, which
  \<^verbatim>\<open>ShouldThrottle\<close> converts to \<^verbatim>\<open>int64\<close> without changing its value; it is an
  integer here.
\<close>

record ('r, 'st) ThrottleOptions =
  GetPrefix :: string
  GetMaxCount :: int
  GetDuration :: Duration
  MatchCriteria :: "'r \<Rightarrow> bool"
  GetStorage :: "'st Storage"

definition newDampenerThrottleOptions ::
  "string \<Rightarrow> int \<Rightarrow> Duration \<Rightarrow> ('r \<Rightarrow> bool) \<Rightarrow> 'st Storage \<Rightarrow> ('r, 'st) ThrottleOptions" where
  "newDampenerThrottleOptions prefix count duration f storage =
     \<lparr>GetPrefix = prefix, GetMaxCount = count, GetDuration = duration,
      MatchCriteria = f, GetStorage = storage\<rparr>"

text \<open>
  \<^verbatim>\<open>Throttle\<close> is the interface the chain calls. (Its third method, \<^verbatim>\<open>GetOptions\<close>, is
  not called by the chain.)
\<close>

record ('r, 'w) Throttle =
  ShouldThrottle :: "'r \<Rightarrow> 'w \<Rightarrow> (bool \<times> error option) \<times> 'w"
  AppendEvent :: "'r \<Rightarrow> 'w \<Rightarrow> 'w"

text \<open>
  \<^verbatim>\<open>dampenerThrottle.ShouldThrottle\<close> and \<^verbatim>\<open>dampenerThrottle.AppendEvent\<close>. The line the
  first prints to standard output is left out. In \<^verbatim>\<open>AppendEvent\<close> the clock is read
  before the storage is called, and the error the storage returns is dropped.
\<close>

definition dampenerThrottle_ShouldThrottle ::
  "('r, 'st) ThrottleOptions \<Rightarrow> 'r \<Rightarrow> 'st world \<Rightarrow> (bool \<times> error option) \<times> 'st world" where
  "dampenerThrottle_ShouldThrottle d r w =
     (if MatchCriteria d r then
        (case EventsInDuration (GetStorage d) (GetPrefix d) (GetDuration d) w of
           ((count, Some err), w') \<Rightarrow> ((False, Some err), w')
         | ((count, None), w') \<Rightarrow>
             if count > GetMaxCount d then ((True, None), w') else ((False, None), w'))
      else ((False, None), w))"

definition dampenerThrottle_AppendEvent ::
  "('r, 'st) ThrottleOptions \<Rightarrow> 'r \<Rightarrow> 'st world \<Rightarrow> 'st world" where
  "dampenerThrottle_AppendEvent d r w =
     (case time_Now (clk w) of (now, c') \<Rightarrow>
        snd (Storage.AppendEvent (GetStorage d) (GetPrefix d) now (w\<lparr>clk := c'\<rparr>)))"

text \<open>
  \<^verbatim>\<open>newDampenerThrottle\<close> returns the throttle and starts a goroutine, which for as long
  as the process runs sleeps a minute and then calls \<^verbatim>\<open>Clean\<close> with the throttle's prefix
  and \<^verbatim>\<open>time.Now()\<close>. The throttle is the record of its two methods; the goroutine is
  modelled with the runs below.
\<close>

definition newDampenerThrottle :: "('r, 'st) ThrottleOptions \<Rightarrow> ('r, 'st world) Throttle" where
  "newDampenerThrottle options =
     \<lparr>ShouldThrottle = dampenerThrottle_ShouldThrottle options,
      AppendEvent = dampenerThrottle_AppendEvent options\<rparr>"

text \<open>
  A run of a throttle built by \<^verbatim>\<open>newDampenerThrottle\<close> is a sequence of actions: the
  calls of its two methods by the requests, and the steps of its goroutine, which come
  between them. A pass of the goroutine takes two steps, since \<^verbatim>\<open>time.Now()\<close> is
  evaluated as an argument, before \<^verbatim>\<open>Clean\<close> takes the lock of the storage: first the
  clock is read, later \<^verbatim>\<open>Clean\<close> is called with that reading, and calls of the methods may
  come in between. The run keeps the reading of a pass that has not yet called
  \<^verbatim>\<open>Clean\<close>; a \<^verbatim>\<open>Clean\<close> step with no such reading does nothing. The sleep, which keeps
  two passes a minute apart, is not modelled; no run below has more than one pass. The
  result of a run is the list of the decisions of \<^verbatim>\<open>ShouldThrottle\<close>, in order, and the
  world at the end; a panic in the goroutine ends the process and the run.
\<close>

datatype action = CallAppendEvent | CallShouldThrottle | CleanupReadsClock | CleanupCallsClean

fun run ::
  "('r, 'st) ThrottleOptions \<Rightarrow> 'r \<Rightarrow> action list \<Rightarrow> Time option \<Rightarrow> 'st world
     \<Rightarrow> (bool \<times> error option) list \<times> 'st world outcome" where
  "run d r [] pending w = ([], Returned w)"
| "run d r (CallAppendEvent # as) pending w =
     run d r as pending (Throttle.AppendEvent (newDampenerThrottle d) r w)"
| "run d r (CallShouldThrottle # as) pending w =
     (case ShouldThrottle (newDampenerThrottle d) r w of
        (res, w') \<Rightarrow> (case run d r as pending w' of (rs, fin) \<Rightarrow> (res # rs, fin)))"
| "run d r (CleanupReadsClock # as) pending w =
     (case time_Now (clk w) of (now, c') \<Rightarrow> run d r as (Some now) (w\<lparr>clk := c'\<rparr>))"
| "run d r (CleanupCallsClean # as) pending w =
     (case pending of
        None \<Rightarrow> run d r as None w
      | Some to \<Rightarrow>
          (case Clean (GetStorage d) (GetPrefix d) to w of
             (Panic m, w') \<Rightarrow> ([], Panic m)
           | (Returned e, w') \<Rightarrow> run d r as None w'))"

section \<open>The chain\<close>

text \<open>
  \<^verbatim>\<open>ThrottlerOptions\<close> gives the status and the body of the rejection.
  \<^verbatim>\<open>dampenerPolicy\<close> holds the throttles, the options and the next handler (the field
  \<^verbatim>\<open>next\<close>, a reserved word here, is \<open>next_handler\<close>), whose \<^verbatim>\<open>ServeHTTP\<close> acts on the
  world.
\<close>

record ThrottlerOptions =
  GetStatus :: int
  GetMessage :: "8 word list"


record ('r, 'w) dampenerPolicy =
  throttles :: "('r, 'w) Throttle list"
  options :: ThrottlerOptions
  next_handler :: "'r \<Rightarrow> 'w \<Rightarrow> 'w"





section \<open>The mocks\<close>

text \<open>
  \<^verbatim>\<open>MockStorage\<close> holds three function fields, each of which may be \<^verbatim>\<open>nil\<close>; a
  method calls its field when it is set and returns the zero result otherwise.
\<close>

record 'st MockStorage =
  MockEventsInDuration ::
    "(string \<Rightarrow> Duration \<Rightarrow> 'st world \<Rightarrow> (int \<times> error option) \<times> 'st world) option"
  MockAppendEvent :: "(string \<Rightarrow> Time \<Rightarrow> 'st world \<Rightarrow> error option \<times> 'st world) option"
  MockClean :: "(string \<Rightarrow> Time \<Rightarrow> 'st world \<Rightarrow> error option outcome \<times> 'st world) option"

definition MockStorage_EventsInDuration ::
  "'st MockStorage \<Rightarrow> string \<Rightarrow> Duration \<Rightarrow> 'st world \<Rightarrow> (int \<times> error option) \<times> 'st world" where
  "MockStorage_EventsInDuration s k d w =
     (case MockEventsInDuration s of Some g \<Rightarrow> g k d w | None \<Rightarrow> ((0, None), w))"

definition MockStorage_AppendEvent ::
  "'st MockStorage \<Rightarrow> string \<Rightarrow> Time \<Rightarrow> 'st world \<Rightarrow> error option \<times> 'st world" where
  "MockStorage_AppendEvent s k t w =
     (case MockAppendEvent s of Some g \<Rightarrow> g k t w | None \<Rightarrow> (None, w))"

definition MockStorage_Clean ::
  "'st MockStorage \<Rightarrow> string \<Rightarrow> Time \<Rightarrow> 'st world \<Rightarrow> error option outcome \<times> 'st world" where
  "MockStorage_Clean s k t w =
     (case MockClean s of Some g \<Rightarrow> g k t w | None \<Rightarrow> (Returned None, w))"

definition MockStorage_Storage :: "'st MockStorage \<Rightarrow> 'st Storage" where
  "MockStorage_Storage s =
     \<lparr>EventsInDuration = MockStorage_EventsInDuration s,
      AppendEvent = MockStorage_AppendEvent s,
      Clean = MockStorage_Clean s\<rparr>"

text \<open>
  A mock whose \<^verbatim>\<open>MockEventsInDuration\<close> fails, as in the example of the comment on
  \<^verbatim>\<open>MockStorage\<close>, and the \<^verbatim>\<open>ServeHTTP\<close> of a \<^verbatim>\<open>MockThrottler\<close> with no function set,
  which returns at once.
\<close>

definition storage_down :: "'st MockStorage" where
  "storage_down =
     \<lparr>MockEventsInDuration = Some (\<lambda>k d w. ((0, Some (Error ''mocking out a failure condition'')), w)),
      MockAppendEvent = None,
      MockClean = None\<rparr>"




text \<open>
  The match criteria of the package's test, which accepts every request, and its
  opposite.
\<close>

definition always :: "'r \<Rightarrow> bool" where
  "always r = True"

definition never :: "'r \<Rightarrow> bool" where
  "never r = False"

section \<open>Quantities the properties speak of\<close>

text \<open>
  The smallest \<^verbatim>\<open>Duration\<close>, \<open>- 2 ^ 63\<close> nanoseconds; it is its own negation in
  \<^verbatim>\<open>int64\<close>.
\<close>

definition minDuration :: Duration where
  "minDuration = - (2 ^ 63)"

text \<open>
  The readings of the clock that a loop of \<open>n\<close> iterations takes, one per iteration,
  and two clocks: one that shows the same instant at every read, and one that advances by
  a fixed step from one read to the next.
\<close>

definition scan_readings :: "clock \<Rightarrow> nat \<Rightarrow> Time list" where
  "scan_readings c n = map (readings c) [taken c ..< taken c + n]"

definition steady :: "Time \<Rightarrow> clock" where
  "steady t = \<lparr>readings = (\<lambda>n. t), taken = 0\<rparr>"

definition ticking :: "Time \<Rightarrow> int \<Rightarrow> clock" where
  "ticking t step = \<lparr>readings = (\<lambda>n. t + step * int n), taken = 0\<rparr>"

text \<open>
  The count as the specification words it, for comparison with the code: the number of
  events of the key's log strictly after \<open>now - window\<close>, with \<open>now\<close> read once, when
  the call is made.
\<close>

definition spec_EventsInDuration :: "string \<Rightarrow> Duration \<Rightarrow> memory world \<Rightarrow> int" where
  "spec_EventsInDuration k d w =
     int (length (filter (\<lambda>v. readings (clk w) (taken (clk w)) - sint d < v)
                    (index_map (backend w) k)))"



section \<open>Clean\<close>

text \<open>
  C1, at three logs of the key \<open>''ip''\<close> with the cutoff 3. The claim is that
  \<^verbatim>\<open>Clean(key, cutoff)\<close> removes exactly the events strictly older than the cutoff. The
  comment of \<^verbatim>\<open>Clean\<close> says the same ("clean up every earlier than to"), and the code
  does not do it: from the log \<open>[1, 2, 3]\<close> it keeps the stale event 2, because it
  slices at \<open>i - 1\<close>; on the log \<open>[5]\<close>, whose first event is not stale, the index is
  \<open>-1\<close> and the slice expression panics; and from the log \<open>[1, 2]\<close>, where every event is
  stale, it removes nothing, because the loop ends without an assignment.
\<close>

theorem Clean_retains_stale_events:
  "backend (snd (MemoryStorage_Clean ''ip'' 3
      \<lparr>backend = [''ip'' \<mapsto> [1, 2, 3]], clk = \<lparr>readings = (\<lambda>n. 3), taken = 0\<rparr>\<rparr>)) ''ip''
     = Some [2, 3]
   \<and> MemoryStorage_Clean ''ip'' 3
      \<lparr>backend = [''ip'' \<mapsto> [5]], clk = \<lparr>readings = (\<lambda>n. 3), taken = 0\<rparr>\<rparr>
     = (Panic ''slice bounds out of range'',
        \<lparr>backend = [''ip'' \<mapsto> [5]], clk = \<lparr>readings = (\<lambda>n. 3), taken = 0\<rparr>\<rparr>)
   \<and> backend (snd (MemoryStorage_Clean ''ip'' 3
      \<lparr>backend = [''ip'' \<mapsto> [1, 2]], clk = \<lparr>readings = (\<lambda>n. 3), taken = 0\<rparr>\<rparr>)) ''ip''
     = Some [1, 2]"
  by (simp add: MemoryStorage_Clean_def index_map_def Before_def slice_from_def)

text \<open>
  C9: \<^verbatim>\<open>Clean(k, cutoff)\<close> leaves the log of every key other than \<open>k\<close> as it was,
  whether it returns or panics.
\<close>

theorem Clean_other_keys_unchanged:
  "k' \<noteq> k \<Longrightarrow> backend (snd (MemoryStorage_Clean k to w)) k' = backend w k'"
  by (simp add: MemoryStorage_Clean_def split: outcome.split option.split)

theorem Clean_other_keys_unchanged_witness:
  "''path'' \<noteq> ''ip''
   \<and> backend (snd (MemoryStorage_Clean ''ip'' 3
        \<lparr>backend = [''ip'' \<mapsto> [1, 2, 3], ''path'' \<mapsto> [1, 2, 3]],
         clk = \<lparr>readings = (\<lambda>n. 3), taken = 0\<rparr>\<rparr>)) ''path''
     = Some [1, 2, 3]"
  using Clean_other_keys_unchanged [of "''path''" "''ip''" 3
      "\<lparr>backend = [''ip'' \<mapsto> [1, 2, 3], ''path'' \<mapsto> [1, 2, 3]],
        clk = \<lparr>readings = (\<lambda>n. 3), taken = 0\<rparr>\<rparr>"]
  by simp

section \<open>EventsInDuration\<close>

lemma sint_minDuration: "sint minDuration = - (2 ^ 63)"
  by (simp add: minDuration_def)

lemma sint_minus_minDuration: "sint (- minDuration) = - (2 ^ 63)"
  by (simp add: minDuration_def)

lemma sint_minus_Duration:
  assumes "d \<noteq> minDuration"
  shows "sint (- d) = - sint (d :: Duration)"
proof -
  have "sint d \<noteq> sint minDuration"
    using assms signed_word_eqI [of d minDuration] by blast
  then have ne: "sint d \<noteq> - (2 ^ 63)" by (simp add: sint_minDuration)
  have lo: "- (2 ^ 63) \<le> sint d" using sint_ge [of d] by simp
  have hi: "sint d < 2 ^ 63" using sint_lt [of d] by simp
  have "sint (- d) = signed_take_bit 63 (- sint d)"
    by (simp add: sint_word_minus)
  also have "\<dots> = - sint d"
    using ne lo hi by (simp add: signed_take_bit_int_eq_self)
  finally show ?thesis .
qed

lemma scan_readings_0: "scan_readings c 0 = []"
  by (simp add: scan_readings_def)

lemma scan_readings_Suc:
  "scan_readings c (Suc n) = readings c (taken c) # scan_readings (c\<lparr>taken := Suc (taken c)\<rparr>) n"
  unfolding scan_readings_def by (subst upt_rec) simp

lemma scan_readings_snoc:
  "scan_readings c (Suc n) = scan_readings c n @ [readings c (taken c + n)]"
  by (simp add: scan_readings_def)

lemma length_scan_readings: "length (scan_readings c n) = n"
  by (simp add: scan_readings_def)

lemma nth_scan_readings: "i < n \<Longrightarrow> scan_readings c n ! i = readings c (taken c + i)"
  by (simp add: scan_readings_def)

text \<open>
  The loop pairs the events of the log with the readings of the clock, in order, and
  counts the pairs whose event is after the cutoff of its reading.
\<close>

lemma EventsInDuration_loop_eq:
  "EventsInDuration_loop d vs counter c =
     (counter + int (length (filter (\<lambda>(v, now). After v (Add now (- 1 * d)))
         (zip vs (scan_readings c (length vs))))),
      c\<lparr>taken := taken c + length vs\<rparr>)"
proof (induction vs arbitrary: counter c)
  case Nil
  show ?case by (simp add: scan_readings_0)
next
  case (Cons v vs)
  show ?case
    by (simp add: Cons.IH time_Now_def scan_readings_Suc)
qed

lemma count_same_reading:
  assumes "length vs = length rs" and "\<forall>now \<in> set rs. now = t"
  shows "length (filter (\<lambda>(v, now). P v now) (zip vs rs)) = length (filter (\<lambda>v. P v t) vs)"
  using assms by (induction vs rs rule: list_induct2) auto

lemma count_later_readings:
  assumes "length vs = length rs" and "\<forall>now \<in> set rs. t \<le> now"
  shows "length (filter (\<lambda>(v, now). now - x < v) (zip vs rs))
           \<le> length (filter (\<lambda>v. t - (x::int) < v) vs)"
  using assms
proof (induction vs rs rule: list_induct2)
  case Nil
  show ?case by simp
next
  case (Cons v vs r rs)
  then have "t \<le> r" and "\<forall>now \<in> set rs. t \<le> now" by simp_all
  with Cons.IH show ?case by auto
qed

lemma count_all:
  assumes "length vs = length rs" and "\<forall>i < length vs. P (vs ! i) (rs ! i)"
  shows "length (filter (\<lambda>(v, now). P v now) (zip vs rs)) = length vs"
proof -
  have "\<forall>x \<in> set (zip vs rs). (\<lambda>(v, now). P v now) x"
    using assms by (auto simp: set_zip)
  then have "filter (\<lambda>(v, now). P v now) (zip vs rs) = zip vs rs"
    by (simp only: filter_True)
  then show ?thesis using assms by simp
qed

lemma EventsInDuration_per_reading:
  assumes "d \<noteq> minDuration"
  shows "fst (MemoryStorage_EventsInDuration k d w) =
     (int (length (filter (\<lambda>(v, now). now - sint d < v)
        (zip (index_map (backend w) k)
             (scan_readings (clk w) (length (index_map (backend w) k)))))), None)"
  by (simp add: MemoryStorage_EventsInDuration_def EventsInDuration_loop_eq After_def Add_def
      sint_minus_Duration [OF assms])

text \<open>
  C4, as amended. For a key with no log \<^verbatim>\<open>EventsInDuration\<close> returns 0 and reads no
  clock. For every window but the smallest \<^verbatim>\<open>Duration\<close> it returns the number of events
  of the key's log that are strictly after \<open>r - window\<close>, where \<open>r\<close> is the reading of the
  clock taken when that event is examined: the clock is read once per event. So when the
  clock shows the same instant at every read of the call, the result is the number of
  events strictly after \<open>now - window\<close>; and when no reading is before the first one, an
  event at or before \<open>now - window\<close>, for the first reading \<open>now\<close>, is not counted.
\<close>

theorem EventsInDuration_counts_per_reading:
  "(backend w k = None \<longrightarrow> MemoryStorage_EventsInDuration k d w = ((0, None), w))
   \<and> (d \<noteq> minDuration \<longrightarrow>
        fst (MemoryStorage_EventsInDuration k d w) =
          (int (length (filter (\<lambda>(v, now). now - sint d < v)
             (zip (index_map (backend w) k)
                  (scan_readings (clk w) (length (index_map (backend w) k)))))), None))
   \<and> (d \<noteq> minDuration
        \<and> (\<forall>now \<in> set (scan_readings (clk w) (length (index_map (backend w) k))).
              now = readings (clk w) (taken (clk w))) \<longrightarrow>
        fst (MemoryStorage_EventsInDuration k d w) = (spec_EventsInDuration k d w, None))
   \<and> (d \<noteq> minDuration
        \<and> (\<forall>now \<in> set (scan_readings (clk w) (length (index_map (backend w) k))).
              readings (clk w) (taken (clk w)) \<le> now) \<longrightarrow>
        fst (fst (MemoryStorage_EventsInDuration k d w)) \<le> spec_EventsInDuration k d w)"
proof (intro conjI impI)
  assume "backend w k = None"
  then show "MemoryStorage_EventsInDuration k d w = ((0, None), w)"
    by (simp add: MemoryStorage_EventsInDuration_def index_map_def)
next
  assume "d \<noteq> minDuration"
  then show "fst (MemoryStorage_EventsInDuration k d w) =
          (int (length (filter (\<lambda>(v, now). now - sint d < v)
             (zip (index_map (backend w) k)
                  (scan_readings (clk w) (length (index_map (backend w) k)))))), None)"
    by (rule EventsInDuration_per_reading)
next
  assume a: "d \<noteq> minDuration
        \<and> (\<forall>now \<in> set (scan_readings (clk w) (length (index_map (backend w) k))).
              now = readings (clk w) (taken (clk w)))"
  show "fst (MemoryStorage_EventsInDuration k d w) = (spec_EventsInDuration k d w, None)"
    using a count_same_reading [of "index_map (backend w) k"
        "scan_readings (clk w) (length (index_map (backend w) k))"
        "readings (clk w) (taken (clk w))" "\<lambda>v now. now - sint d < v"]
    by (simp add: EventsInDuration_per_reading spec_EventsInDuration_def length_scan_readings)
next
  assume a: "d \<noteq> minDuration
        \<and> (\<forall>now \<in> set (scan_readings (clk w) (length (index_map (backend w) k))).
              readings (clk w) (taken (clk w)) \<le> now)"
  show "fst (fst (MemoryStorage_EventsInDuration k d w)) \<le> spec_EventsInDuration k d w"
    using a count_later_readings [of "index_map (backend w) k"
        "scan_readings (clk w) (length (index_map (backend w) k))"
        "readings (clk w) (taken (clk w))" "sint d"]
    by (simp add: EventsInDuration_per_reading spec_EventsInDuration_def length_scan_readings)
qed

text \<open>
  The amended statement at four inputs with the window 7: a key with no log; the log
  \<open>[5, 8]\<close> read with a clock that shows 10 and then 16, where only the event 5 is counted
  (8 is not after \<open>16 - 7\<close>); the same log with a clock that stays at 10, where both are
  counted; and the bound for the advancing clock.
\<close>

theorem EventsInDuration_counts_per_reading_witness:
  "MemoryStorage_EventsInDuration ''ip'' 7 \<lparr>backend = [''path'' \<mapsto> [5, 8]], clk = ticking 10 6\<rparr>
     = ((0, None), \<lparr>backend = [''path'' \<mapsto> [5, 8]], clk = ticking 10 6\<rparr>)
   \<and> fst (MemoryStorage_EventsInDuration ''ip'' 7 \<lparr>backend = [''ip'' \<mapsto> [5, 8]], clk = ticking 10 6\<rparr>)
     = (1, None)
   \<and> fst (MemoryStorage_EventsInDuration ''ip'' 7 \<lparr>backend = [''ip'' \<mapsto> [5, 8]], clk = steady 10\<rparr>)
     = (2, None)
   \<and> fst (fst (MemoryStorage_EventsInDuration ''ip'' 7
         \<lparr>backend = [''ip'' \<mapsto> [5, 8]], clk = ticking 10 6\<rparr>)) \<le> 2"
proof -
  let ?W0 = "\<lparr>backend = [''path'' \<mapsto> [5, 8]], clk = ticking 10 6\<rparr>"
  let ?W1 = "\<lparr>backend = [''ip'' \<mapsto> [5, 8]], clk = ticking 10 6\<rparr>"
  let ?W2 = "\<lparr>backend = [''ip'' \<mapsto> [5, 8]], clk = steady 10\<rparr>"
  have d: "(7 :: Duration) \<noteq> minDuration"
    by (simp add: minDuration_def)
  have c1: "MemoryStorage_EventsInDuration ''ip'' 7 ?W0 = ((0, None), ?W0)"
    using EventsInDuration_counts_per_reading [of ?W0 "''ip''" 7] by simp
  have c2: "fst (MemoryStorage_EventsInDuration ''ip'' 7 ?W1) = (1, None)"
    using EventsInDuration_counts_per_reading [of ?W1 "''ip''" 7] d
    by (simp add: index_map_def scan_readings_Suc scan_readings_0 ticking_def)
  have c3: "fst (MemoryStorage_EventsInDuration ''ip'' 7 ?W2) = (2, None)"
    using EventsInDuration_counts_per_reading [of ?W2 "''ip''" 7] d
    by (simp add: index_map_def scan_readings_Suc scan_readings_0 steady_def
        spec_EventsInDuration_def)
  have c4: "fst (fst (MemoryStorage_EventsInDuration ''ip'' 7 ?W1)) \<le> 2"
    using EventsInDuration_counts_per_reading [of ?W1 "''ip''" 7] d
    by (simp add: index_map_def scan_readings_Suc scan_readings_0 ticking_def
        spec_EventsInDuration_def)
  show ?thesis
    using c1 c2 c3 c4 by blast
qed

text \<open>
  C4 as it is stated does not hold. With the log \<open>[5, 8]\<close>, the window 7 and a clock
  that shows 10 at the first read and 16 at the second, the code returns 1, and the
  number of events strictly after \<open>10 - 7\<close> is 2. With the log \<open>[100]\<close>, the clock at 100
  and the smallest \<^verbatim>\<open>Duration\<close> as the window, \<^verbatim>\<open>-1 * d\<close> wraps around to \<open>d\<close> itself, the
  cutoff lies \<open>2 ^ 63\<close> nanoseconds in the past instead of the future, and the code returns
  1 where the number of events strictly after \<open>now - window\<close> is 0.
\<close>

theorem EventsInDuration_differs_from_spec:
  "fst (MemoryStorage_EventsInDuration ''ip'' 7 \<lparr>backend = [''ip'' \<mapsto> [5, 8]], clk = ticking 10 6\<rparr>)
     = (1, None)
   \<and> spec_EventsInDuration ''ip'' 7 \<lparr>backend = [''ip'' \<mapsto> [5, 8]], clk = ticking 10 6\<rparr> = 2
   \<and> fst (MemoryStorage_EventsInDuration ''ip'' minDuration
        \<lparr>backend = [''ip'' \<mapsto> [100]], clk = steady 100\<rparr>) = (1, None)
   \<and> spec_EventsInDuration ''ip'' minDuration
        \<lparr>backend = [''ip'' \<mapsto> [100]], clk = steady 100\<rparr> = 0"
  by (simp add: MemoryStorage_EventsInDuration_def spec_EventsInDuration_def index_map_def
      ticking_def steady_def time_Now_def After_def Add_def minDuration_def)

section \<open>The decision and the recording of a throttle\<close>

lemma MemoryStorage_AppendEvent_eq:
  "MemoryStorage_AppendEvent k t w =
     (None, w\<lparr>backend := (backend w)(k \<mapsto> index_map (backend w) k @ [t])\<rparr>)"
  by (cases "backend w k") (simp_all add: MemoryStorage_AppendEvent_def index_map_def)

lemma dampenerThrottle_AppendEvent_memory:
  assumes "GetStorage d = MemoryStorage"
  shows "dampenerThrottle_AppendEvent d r w =
     w\<lparr>clk := (clk w)\<lparr>taken := Suc (taken (clk w))\<rparr>,
       backend := (backend w)(GetPrefix d \<mapsto>
          index_map (backend w) (GetPrefix d) @ [readings (clk w) (taken (clk w))])\<rparr>"
  by (simp add: dampenerThrottle_AppendEvent_def assms MemoryStorage_def time_Now_def
      MemoryStorage_AppendEvent_eq)

lemma AppendEvent_memory_log:
  assumes "GetStorage d = MemoryStorage"
  shows "index_map (backend (dampenerThrottle_AppendEvent d r w)) (GetPrefix d)
           = index_map (backend w) (GetPrefix d) @ [readings (clk w) (taken (clk w))]"
  by (simp add: dampenerThrottle_AppendEvent_memory [OF assms] index_map_def)

lemma AppendEvent_memory_clk:
  assumes "GetStorage d = MemoryStorage"
  shows "clk (dampenerThrottle_AppendEvent d r w) = (clk w)\<lparr>taken := Suc (taken (clk w))\<rparr>"
  by (simp add: dampenerThrottle_AppendEvent_memory [OF assms])

text \<open>
  C5: the \<^verbatim>\<open>AppendEvent\<close> of a throttle reads the clock once and appends that instant to
  the log under the throttle's prefix, whatever the match criteria say of the request:
  the criteria are not consulted, so replacing them by any other changes nothing, with any
  storage.
\<close>

theorem AppendEvent_records_without_matching:
  "dampenerThrottle_AppendEvent (newDampenerThrottleOptions p n D f MemoryStorage) r w =
     w\<lparr>clk := (clk w)\<lparr>taken := Suc (taken (clk w))\<rparr>,
       backend := (backend w)(p \<mapsto> index_map (backend w) p @ [readings (clk w) (taken (clk w))])\<rparr>
   \<and> dampenerThrottle_AppendEvent (d\<lparr>MatchCriteria := g\<rparr>) r w' = dampenerThrottle_AppendEvent d r w'"
proof
  have "GetStorage (newDampenerThrottleOptions p n D f MemoryStorage) = MemoryStorage"
    and "GetPrefix (newDampenerThrottleOptions p n D f MemoryStorage) = p"
    by (simp_all add: newDampenerThrottleOptions_def)
  then show "dampenerThrottle_AppendEvent (newDampenerThrottleOptions p n D f MemoryStorage) r w =
     w\<lparr>clk := (clk w)\<lparr>taken := Suc (taken (clk w))\<rparr>,
       backend := (backend w)(p \<mapsto> index_map (backend w) p @ [readings (clk w) (taken (clk w))])\<rparr>"
    using dampenerThrottle_AppendEvent_memory
      [of "newDampenerThrottleOptions p n D f MemoryStorage" r w] by simp
next
  show "dampenerThrottle_AppendEvent (d\<lparr>MatchCriteria := g\<rparr>) r w' = dampenerThrottle_AppendEvent d r w'"
    by (simp add: dampenerThrottle_AppendEvent_def)
qed

text \<open>
  C7: when the match criteria accept the request and the storage's
  \<^verbatim>\<open>EventsInDuration\<close> returns an error, \<^verbatim>\<open>ShouldThrottle\<close> returns \<open>false\<close> with that
  error, and the world is the one the single call to the storage left.
\<close>

theorem ShouldThrottle_returns_storage_error:
  assumes "MatchCriteria d r"
    and "EventsInDuration (GetStorage d) (GetPrefix d) (GetDuration d) w = ((count, Some err), w')"
  shows "dampenerThrottle_ShouldThrottle d r w = ((False, Some err), w')"
  using assms by (simp add: dampenerThrottle_ShouldThrottle_def)

theorem ShouldThrottle_returns_storage_error_witness:
  "dampenerThrottle_ShouldThrottle
     (newDampenerThrottleOptions ''ip'' 100 60000000000 always (MockStorage_Storage storage_down))
     ''GET /'' \<lparr>backend = (), clk = steady 0\<rparr>
   = ((False, Some (Error ''mocking out a failure condition'')),
      \<lparr>backend = (), clk = steady 0\<rparr>)"
proof (rule ShouldThrottle_returns_storage_error)
  show "MatchCriteria
      (newDampenerThrottleOptions ''ip'' 100 60000000000 always (MockStorage_Storage storage_down))
      ''GET /''"
    by (simp add: newDampenerThrottleOptions_def always_def)
next
  let ?d = "newDampenerThrottleOptions ''ip'' 100 60000000000 always
      (MockStorage_Storage storage_down) :: (string, unit) ThrottleOptions"
  show "EventsInDuration (GetStorage ?d) (GetPrefix ?d) (GetDuration ?d)
      \<lparr>backend = (), clk = steady 0\<rparr>
    = ((0, Some (Error ''mocking out a failure condition'')), \<lparr>backend = (), clk = steady 0\<rparr>)"
    by (simp add: newDampenerThrottleOptions_def MockStorage_Storage_def
        MockStorage_EventsInDuration_def storage_down_def)
qed

text \<open>
  C8: when the match criteria reject the request, \<^verbatim>\<open>ShouldThrottle\<close> returns
  \<open>(false, nil)\<close> and the world is untouched, whatever the storage is and holds: the
  storage is not called.
\<close>

theorem ShouldThrottle_unmatched_request:
  "\<not> MatchCriteria d r \<Longrightarrow> dampenerThrottle_ShouldThrottle d r w = ((False, None), w)"
  by (simp add: dampenerThrottle_ShouldThrottle_def)

theorem ShouldThrottle_unmatched_request_witness:
  "\<not> MatchCriteria (newDampenerThrottleOptions ''ip'' 1 60000000000 never MemoryStorage) ''GET /''
   \<and> dampenerThrottle_ShouldThrottle
       (newDampenerThrottleOptions ''ip'' 1 60000000000 never MemoryStorage) ''GET /''
       \<lparr>backend = [''ip'' \<mapsto> [100, 100, 100]], clk = steady 100\<rparr>
     = ((False, None), \<lparr>backend = [''ip'' \<mapsto> [100, 100, 100]], clk = steady 100\<rparr>)"
proof -
  have n: "\<not> MatchCriteria
      (newDampenerThrottleOptions ''ip'' 1 60000000000 never MemoryStorage) ''GET /''"
    by (simp add: newDampenerThrottleOptions_def never_def)
  show ?thesis
    using n ShouldThrottle_unmatched_request [OF n] by simp
qed

text \<open>
  C10: with the in-memory storage, \<^verbatim>\<open>ShouldThrottle\<close> leaves the map of logs as it was,
  for every request and every state of the storage.
\<close>

theorem ShouldThrottle_leaves_memory_unchanged:
  "backend (snd (dampenerThrottle_ShouldThrottle
      (newDampenerThrottleOptions p n D f MemoryStorage) r w)) = backend w"
  by (simp add: dampenerThrottle_ShouldThrottle_def newDampenerThrottleOptions_def
      MemoryStorage_def MemoryStorage_EventsInDuration_def split: prod.split)

section \<open>Reaching the threshold\<close>

lemma AppendEvent_funpow_memory:
  assumes "GetStorage d = MemoryStorage"
  shows "index_map (backend ((dampenerThrottle_AppendEvent d r ^^ n) w)) (GetPrefix d)
           = index_map (backend w) (GetPrefix d) @ scan_readings (clk w) n
         \<and> clk ((dampenerThrottle_AppendEvent d r ^^ n) w)
           = (clk w)\<lparr>taken := taken (clk w) + n\<rparr>"
proof (induction n)
  case 0
  show ?case by (simp add: scan_readings_0)
next
  case (Suc n)
  define wn where "wn = (dampenerThrottle_AppendEvent d r ^^ n) w"
  have step: "(dampenerThrottle_AppendEvent d r ^^ Suc n) w = dampenerThrottle_AppendEvent d r wn"
    by (simp add: wn_def)
  have ih: "index_map (backend wn) (GetPrefix d)
              = index_map (backend w) (GetPrefix d) @ scan_readings (clk w) n"
    and ihc: "clk wn = (clk w)\<lparr>taken := taken (clk w) + n\<rparr>"
    using Suc.IH by (simp_all add: wn_def)
  show ?case
    unfolding step AppendEvent_memory_log [OF assms] AppendEvent_memory_clk [OF assms]
    by (simp add: ih ihc scan_readings_snoc)
qed

lemma within_window_After:
  assumes "now - v < sint (D :: Duration)"
  shows "After v (Add now (- D))"
proof (cases "D = minDuration")
  case True
  then have "now - v < - (2 ^ 63)" using assms by (simp add: sint_minDuration)
  then show ?thesis using True by (simp add: After_def Add_def sint_minus_minDuration)
next
  case False
  then show ?thesis using assms by (simp add: After_def Add_def sint_minus_Duration)
qed

text \<open>
  When every event of the log under the prefix is less than the window before the
  reading it is compared with, the count is the length of the log.
\<close>

lemma ShouldThrottle_all_in_window:
  assumes st: "GetStorage d = MemoryStorage" and m: "MatchCriteria d r"
    and w: "\<forall>i < length (index_map (backend w) (GetPrefix d)).
              readings (clk w) (taken (clk w) + i) - index_map (backend w) (GetPrefix d) ! i
                < sint (GetDuration d)"
  shows "dampenerThrottle_ShouldThrottle d r w =
     ((GetMaxCount d < int (length (index_map (backend w) (GetPrefix d))), None),
      w\<lparr>clk := (clk w)\<lparr>taken := taken (clk w) + length (index_map (backend w) (GetPrefix d))\<rparr>\<rparr>)"
proof -
  let ?log = "index_map (backend w) (GetPrefix d)"
  have "\<forall>i < length ?log. After (?log ! i)
          (Add (scan_readings (clk w) (length ?log) ! i) (- 1 * GetDuration d))"
    using w by (simp add: nth_scan_readings within_window_After)
  then have "length (filter (\<lambda>(v, now). After v (Add now (- 1 * GetDuration d)))
          (zip ?log (scan_readings (clk w) (length ?log)))) = length ?log"
    using count_all [of ?log "scan_readings (clk w) (length ?log)"
        "\<lambda>v now. After v (Add now (- GetDuration d))"]
    by (simp add: length_scan_readings)
  then have "MemoryStorage_EventsInDuration (GetPrefix d) (GetDuration d) w =
      ((int (length ?log), None), w\<lparr>clk := (clk w)\<lparr>taken := taken (clk w) + length ?log\<rparr>\<rparr>)"
    by (simp add: MemoryStorage_EventsInDuration_def EventsInDuration_loop_eq)
  then show ?thesis
    by (simp add: dampenerThrottle_ShouldThrottle_def st m MemoryStorage_def)
qed

text \<open>
  The two methods composed in the order of the package's test, with nothing between
  them: \<open>N\<close> calls of \<^verbatim>\<open>AppendEvent\<close>, a call of \<^verbatim>\<open>ShouldThrottle\<close>, one more
  \<^verbatim>\<open>AppendEvent\<close>, and a second \<^verbatim>\<open>ShouldThrottle\<close>.
\<close>

lemma threshold_composed:
  fixes N :: nat
  assumes opts: "d = newDampenerThrottleOptions p (int N) D f MemoryStorage"
    and classify: "\<forall>r. f r"
    and fresh: "index_map (backend w0) p = []"
    and within: "\<forall>i j. i < j \<and> j < 3 * N + 2 \<longrightarrow>
        readings (clk w0) (taken (clk w0) + j) - readings (clk w0) (taken (clk w0) + i) < sint D"
  shows "(let w1 = (dampenerThrottle_AppendEvent d r ^^ N) w0;
              (res1, w2) = dampenerThrottle_ShouldThrottle d r w1;
              w3 = dampenerThrottle_AppendEvent d r w2;
              (res2, w4) = dampenerThrottle_ShouldThrottle d r w3
          in res1 = (False, None) \<and> res2 = (True, None))"
proof -
  let ?c = "clk w0"
  let ?t = "taken ?c"
  define w1 where "w1 = (dampenerThrottle_AppendEvent d r ^^ N) w0"
  have st: "GetStorage d = MemoryStorage" and m: "MatchCriteria d r"
    and pre: "GetPrefix d = p" and mx: "GetMaxCount d = int N" and du: "GetDuration d = D"
    using opts classify by (simp_all add: newDampenerThrottleOptions_def)
  have log1: "index_map (backend w1) p = scan_readings ?c N"
    and clk1: "clk w1 = ?c\<lparr>taken := ?t + N\<rparr>"
    using AppendEvent_funpow_memory [OF st, where r = r and n = N and w = w0] fresh
    by (simp_all add: w1_def pre)
  have in1: "\<forall>i < length (index_map (backend w1) (GetPrefix d)).
      readings (clk w1) (taken (clk w1) + i) - index_map (backend w1) (GetPrefix d) ! i
        < sint (GetDuration d)"
  proof (intro allI impI)
    fix i
    assume "i < length (index_map (backend w1) (GetPrefix d))"
    then have i: "i < N" by (simp add: pre log1 length_scan_readings)
    then have "readings ?c (?t + (N + i)) - readings ?c (?t + i) < sint D"
      using within [rule_format, of i "N + i"] by simp
    then show "readings (clk w1) (taken (clk w1) + i) - index_map (backend w1) (GetPrefix d) ! i
        < sint (GetDuration d)"
      using i by (simp add: pre du log1 clk1 nth_scan_readings add.assoc)
  qed
  define w2 where "w2 = w1\<lparr>clk := ?c\<lparr>taken := ?t + 2 * N\<rparr>\<rparr>"
  have s1: "dampenerThrottle_ShouldThrottle d r w1 = ((False, None), w2)"
    using ShouldThrottle_all_in_window [OF st m in1]
    by (simp add: pre mx log1 clk1 length_scan_readings w2_def)
  define w3 where "w3 = dampenerThrottle_AppendEvent d r w2"
  have log3: "index_map (backend w3) p = scan_readings ?c N @ [readings ?c (?t + 2 * N)]"
    and clk3: "clk w3 = ?c\<lparr>taken := ?t + 2 * N + 1\<rparr>"
    using AppendEvent_memory_log [OF st, where r = r and w = w2]
      AppendEvent_memory_clk [OF st, where r = r and w = w2]
    by (simp_all add: w3_def pre w2_def log1)
  have in3: "\<forall>i < length (index_map (backend w3) (GetPrefix d)).
      readings (clk w3) (taken (clk w3) + i) - index_map (backend w3) (GetPrefix d) ! i
        < sint (GetDuration d)"
  proof (intro allI impI)
    fix i
    assume "i < length (index_map (backend w3) (GetPrefix d))"
    then have i: "i \<le> N" by (simp add: pre log3 length_scan_readings)
    show "readings (clk w3) (taken (clk w3) + i) - index_map (backend w3) (GetPrefix d) ! i
        < sint (GetDuration d)"
    proof (cases "i < N")
      case True
      then have "readings ?c (?t + (2 * N + 1 + i)) - readings ?c (?t + i) < sint D"
        using within [rule_format, of i "2 * N + 1 + i"] by simp
      then show ?thesis using True
        by (simp add: pre du log3 clk3 nth_append length_scan_readings nth_scan_readings
            add.assoc)
    next
      case False
      with i have "i = N" by simp
      moreover have "readings ?c (?t + (3 * N + 1)) - readings ?c (?t + 2 * N) < sint D"
        using within [rule_format, of "2 * N" "3 * N + 1"] by simp
      ultimately show ?thesis
        by (simp add: pre du log3 clk3 nth_append length_scan_readings add.assoc)
    qed
  qed
  have s3: "fst (dampenerThrottle_ShouldThrottle d r w3) = (True, None)"
    using ShouldThrottle_all_in_window [OF st m in3]
    by (simp add: pre mx log3 length_scan_readings)
  show ?thesis
    using s1 s3 by (auto simp: w1_def [symmetric] w3_def [symmetric] split: prod.split)
qed

lemma run_appends:
  "run d r (replicate n CallAppendEvent @ as) pending w =
     run d r as pending ((dampenerThrottle_AppendEvent d r ^^ n) w)"
proof (induction n arbitrary: w)
  case 0
  show ?case by simp
next
  case (Suc n)
  have "run d r (replicate (Suc n) CallAppendEvent @ as) pending w =
      run d r (replicate n CallAppendEvent @ as) pending (dampenerThrottle_AppendEvent d r w)"
    by (simp add: newDampenerThrottle_def)
  also have "\<dots> = run d r as pending
      ((dampenerThrottle_AppendEvent d r ^^ n) (dampenerThrottle_AppendEvent d r w))"
    by (rule Suc.IH)
  also have "(dampenerThrottle_AppendEvent d r ^^ n) (dampenerThrottle_AppendEvent d r w) =
      (dampenerThrottle_AppendEvent d r ^^ Suc n) w"
    by (simp add: funpow_swap1)
  finally show ?case .
qed

text \<open>
  C2, as amended: a throttle with the threshold \<open>N\<close>, the window \<open>D\<close>, match criteria
  that accept every request and the in-memory storage, with no event under its prefix at
  the start, in a run in which its cleanup goroutine takes no step: \<open>N\<close> calls of
  \<^verbatim>\<open>AppendEvent\<close>, a call of \<^verbatim>\<open>ShouldThrottle\<close>, one more \<^verbatim>\<open>AppendEvent\<close>, and a second
  \<^verbatim>\<open>ShouldThrottle\<close>. The run reads the clock \<open>3 * N + 2\<close> times; when each reading is
  less than \<open>D\<close> after every earlier one, the first decision is \<open>(false, nil)\<close> and the
  second is \<open>(true, nil)\<close>.
\<close>

theorem ShouldThrottle_at_threshold:
  fixes N :: nat
  assumes opts: "d = newDampenerThrottleOptions p (int N) D f MemoryStorage"
    and classify: "\<forall>r. f r"
    and fresh: "index_map (backend w0) p = []"
    and within: "\<forall>i j. i < j \<and> j < 3 * N + 2 \<longrightarrow>
        readings (clk w0) (taken (clk w0) + j) - readings (clk w0) (taken (clk w0) + i) < sint D"
  shows "fst (run d r
            (replicate N CallAppendEvent @ [CallShouldThrottle, CallAppendEvent, CallShouldThrottle])
            pending w0)
         = [(False, None), (True, None)]"
proof -
  define w1 where "w1 = (dampenerThrottle_AppendEvent d r ^^ N) w0"
  obtain res1 w2 where s1: "dampenerThrottle_ShouldThrottle d r w1 = (res1, w2)"
    by (metis prod.exhaust)
  define w3 where "w3 = dampenerThrottle_AppendEvent d r w2"
  obtain res2 w4 where s2: "dampenerThrottle_ShouldThrottle d r w3 = (res2, w4)"
    by (metis prod.exhaust)
  have "res1 = (False, None) \<and> res2 = (True, None)"
    using threshold_composed [OF opts classify fresh within, of r] s1 s2
    by (simp add: w1_def [symmetric] w3_def [symmetric])
  moreover have "run d r
      (replicate N CallAppendEvent @ [CallShouldThrottle, CallAppendEvent, CallShouldThrottle])
      pending w0 = ([res1, res2], Returned w4)"
    unfolding run_appends w1_def [symmetric]
    by (simp add: newDampenerThrottle_def s1 w3_def [symmetric] s2)
  ultimately show ?thesis by simp
qed

text \<open>
  The throttle of the package's test: threshold 100, a window of one minute, a new
  in-memory storage, and a clock that advances by one nanosecond at every read.
\<close>

theorem ShouldThrottle_at_threshold_witness:
  "fst (run (newDampenerThrottleOptions ''IPAddress'' (int 100) 60000000000 always MemoryStorage)
          ''GET /''
          (replicate 100 CallAppendEvent @ [CallShouldThrottle, CallAppendEvent, CallShouldThrottle])
          None \<lparr>backend = NewMemoryStorage, clk = ticking 0 1\<rparr>)
   = [(False, None), (True, None)]"
proof -
  let ?w0 = "\<lparr>backend = NewMemoryStorage, clk = ticking 0 1\<rparr>"
  have classify: "\<forall>r :: string. always r"
    by (simp add: always_def)
  have fresh: "index_map (backend ?w0) ''IPAddress'' = []"
    by (simp add: index_map_def NewMemoryStorage_def)
  have within: "\<forall>i j. i < j \<and> j < 3 * 100 + 2 \<longrightarrow>
      readings (clk ?w0) (taken (clk ?w0) + j) - readings (clk ?w0) (taken (clk ?w0) + i)
        < sint (60000000000 :: Duration)"
    by (simp add: ticking_def)
  show ?thesis
    by (rule ShouldThrottle_at_threshold [OF refl classify fresh within])
qed

text \<open>
  C2 as it is stated does not hold of a throttle built by \<^verbatim>\<open>newDampenerThrottle\<close>,
  whose goroutine cleans the same log. Threshold 3, a window of one hour, a new in-memory
  storage and a clock that advances by one nanosecond at every read: two events are
  recorded, at 0 and 1; the goroutine reads the clock, 2; the third event is recorded,
  at 3; the goroutine calls \<^verbatim>\<open>Clean\<close> with 2, which finds the event 3 at index 2 and keeps
  the log from index 1, \<open>[1, 3]\<close>. The first decision is \<open>(false, nil)\<close>; after the fourth
  \<^verbatim>\<open>AppendEvent\<close> the log has three events and the second decision is \<open>(false, nil)\<close> too,
  ten nanoseconds after the first event.
\<close>

theorem ShouldThrottle_after_cleanup_pass:
  "run (newDampenerThrottleOptions ''IPAddress'' 3 3600000000000 always MemoryStorage)
     ''GET /''
     [CallAppendEvent, CallAppendEvent, CleanupReadsClock, CallAppendEvent, CleanupCallsClean,
      CallShouldThrottle, CallAppendEvent, CallShouldThrottle]
     None \<lparr>backend = NewMemoryStorage, clk = ticking 0 1\<rparr>
   = ([(False, None), (False, None)],
      Returned \<lparr>backend = [''IPAddress'' \<mapsto> [1, 3, 6]], clk = (ticking 0 1)\<lparr>taken := 10\<rparr>\<rparr>)"
  by (simp add: newDampenerThrottle_def newDampenerThrottleOptions_def
      dampenerThrottle_ShouldThrottle_def dampenerThrottle_AppendEvent_def
      MemoryStorage_def MemoryStorage_AppendEvent_def MemoryStorage_EventsInDuration_def
      MemoryStorage_Clean_def slice_from_def Before_def After_def Add_def
      index_map_def NewMemoryStorage_def time_Now_def ticking_def always_def)

section \<open>Properties of the chain\<close>
















end
